theory Spec2Isabelle
  imports Main
begin

section \<open>The Tron board of \<open>tronlib.py\<close>\<close>

text \<open>
  A shallow embedding of the classes \<open>TronBoard\<close> and \<open>TronGame\<close>. Python objects are
  records, mutation is state passing, and every function that can raise returns the
  exception (or the normal result) together with the object as it is left behind.
\<close>

subsection \<open>Data\<close>

text \<open>The five cell codes 0 .. 4 of the class, in the order of their declaration.\<close>

datatype cell = EMPTY | PLAYER1_POSITION | PLAYER2_POSITION | VISITED1 | VISITED2

datatype error = AssertionError | ValueError | IndexError | StopIteration

text \<open>
  Positions and move vectors are integer arrays of length two. Their components are
  taken as unbounded integers: the 64-bit limits of numpy are far from any grid.
\<close>

type_synonym vec = "int \<times> int"

text \<open>
  A two-dimensional numpy array: its shape and its elements. Elements are only ever
  read or written inside the shape; every access goes through \<open>getitem\<close> and \<open>setitem\<close>.
\<close>

record ndarray =
  shape0 :: nat
  shape1 :: nat
  item :: "nat \<Rightarrow> nat \<Rightarrow> cell"

record TronBoard =
  board :: ndarray
  gameover :: bool
  winner :: "int option"
  p1 :: vec
  p2 :: vec
  v1 :: vec
  v2 :: vec

definition VALID_VECTORS :: "vec list" where
  "VALID_VECTORS = [(0, 1), (0, -1), (1, 0), (-1, 0)]"

subsection \<open>numpy primitives\<close>

text \<open>\<open>np.zeros((n, m))\<close>: a negative dimension raises \<open>ValueError\<close>.\<close>

definition zeros :: "int \<Rightarrow> int \<Rightarrow> error + ndarray" where
  "zeros n m =
     (if n < 0 \<or> m < 0 then Inl ValueError
      else Inr \<lparr>shape0 = nat n, shape1 = nat m, item = (\<lambda>i j. EMPTY)\<rparr>)"

text \<open>
  Index normalisation along one axis of length \<open>d\<close>: an index in \<open>[0, d)\<close> is used as
  it is, an index in \<open>[-d, 0)\<close> counts from the end, anything else is out of range.
\<close>

definition axis_index :: "nat \<Rightarrow> int \<Rightarrow> nat option" where
  "axis_index d i =
     (if 0 \<le> i \<and> i < int d then Some (nat i)
      else if - int d \<le> i \<and> i < 0 then Some (nat (i + int d))
      else None)"

text \<open>\<open>a[tuple(pos)]\<close>: \<open>IndexError\<close> when either index is out of range.\<close>

definition getitem :: "ndarray \<Rightarrow> vec \<Rightarrow> error + cell" where
  "getitem a pos =
     (case axis_index (shape0 a) (fst pos) of
        None \<Rightarrow> Inl IndexError
      | Some i \<Rightarrow>
          (case axis_index (shape1 a) (snd pos) of
             None \<Rightarrow> Inl IndexError
           | Some j \<Rightarrow> Inr (item a i j)))"

text \<open>\<open>a[tuple(pos)] = c\<close>: the same index check, then the one element is replaced.\<close>

definition setitem :: "ndarray \<Rightarrow> vec \<Rightarrow> cell \<Rightarrow> error + ndarray" where
  "setitem a pos c =
     (case axis_index (shape0 a) (fst pos) of
        None \<Rightarrow> Inl IndexError
      | Some i \<Rightarrow>
          (case axis_index (shape1 a) (snd pos) of
             None \<Rightarrow> Inl IndexError
           | Some j \<Rightarrow> Inr (a\<lparr>item := (item a)(i := (item a i)(j := c))\<rparr>)))"

text \<open>
  \<open>mv in VALID_VECTORS\<close> on a numpy array is \<open>(VALID_VECTORS == mv).any()\<close>: the
  vector is broadcast against every row, the comparison is elementwise, and one equal
  element anywhere is enough.
\<close>

definition contains :: "vec list \<Rightarrow> vec \<Rightarrow> bool" where
  "contains rows mv = list_ex (\<lambda>row. fst row = fst mv \<or> snd row = snd mv) rows"

text \<open>\<open>pos + mv\<close> on arrays of length two.\<close>

definition vadd :: "vec \<Rightarrow> vec \<Rightarrow> vec" where
  "vadd pos mv = (fst pos + fst mv, snd pos + snd mv)"

subsection \<open>\<open>TronBoard.__init__\<close>\<close>

definition TronBoard_init ::
  "int \<Rightarrow> int \<Rightarrow> vec \<Rightarrow> vec \<Rightarrow> vec \<Rightarrow> vec \<Rightarrow> error + TronBoard" where
  "TronBoard_init n m pos1 pos2 vec1 vec2 =
     (if pos1 = pos2 then Inl AssertionError
      else case zeros n m of
        Inl e \<Rightarrow> Inl e
      | Inr a0 \<Rightarrow>
          (case setitem a0 pos1 PLAYER1_POSITION of
             Inl e \<Rightarrow> Inl e
           | Inr a1 \<Rightarrow>
               (case setitem a1 pos2 PLAYER2_POSITION of
                  Inl e \<Rightarrow> Inl e
                | Inr a2 \<Rightarrow>
                    Inr \<lparr>board = a2, gameover = False, winner = None,
                         p1 = pos1, p2 = pos2, v1 = vec1, v2 = vec2\<rparr>)))"

subsection \<open>\<open>TronBoard.valid_move\<close>\<close>

text \<open>The \<open>IndexError\<close> of the read is caught and answered with \<open>False\<close>.\<close>

definition valid_move :: "TronBoard \<Rightarrow> vec \<Rightarrow> bool" where
  "valid_move b mv =
     (if fst mv < 0 \<or> snd mv < 0 then False
      else case getitem (board b) mv of
             Inl e \<Rightarrow> False
           | Inr c \<Rightarrow> c = EMPTY)"

subsection \<open>\<open>TronBoard.update\<close>\<close>

text \<open>
  The condition of lines 90 and 95. The second disjunct is only evaluated when
  \<open>valid_move\<close> has answered \<open>True\<close>, where the read is in range; a read that is not
  \<open>EMPTY\<close> makes the disjunct true.
\<close>

definition blocked :: "TronBoard \<Rightarrow> vec \<Rightarrow> bool" where
  "blocked b new_position =
     (\<not> valid_move b new_position \<or> getitem (board b) new_position \<noteq> Inr EMPTY)"

text \<open>
  Lines 80 to 99: both old cells become trail, then player 1 and after it player 2
  either dies or occupies its new cell. The result is the pair \<open>(p1_dead, p2_dead)\<close>.
\<close>

definition move_players ::
  "TronBoard \<Rightarrow> vec \<Rightarrow> vec \<Rightarrow> (error + bool \<times> bool) \<times> TronBoard" where
  "move_players b p1_new_position p2_new_position =
     (case setitem (board b) (p1 b) VISITED1 of
        Inl e \<Rightarrow> (Inl e, b)
      | Inr a1 \<Rightarrow>
     (case setitem a1 (p2 b) VISITED2 of
        Inl e \<Rightarrow> (Inl e, b\<lparr>board := a1\<rparr>)
      | Inr a2 \<Rightarrow>
     (let b2 = b\<lparr>board := a2\<rparr> in
      case (if blocked b2 p1_new_position then Inr (True, b2)
            else case setitem (board b2) p1_new_position PLAYER1_POSITION of
                   Inl e \<Rightarrow> Inl e
                 | Inr a3 \<Rightarrow> Inr (False, b2\<lparr>board := a3, p1 := p1_new_position\<rparr>)) of
        Inl e \<Rightarrow> (Inl e, b2)
      | Inr (p1_dead, b3) \<Rightarrow>
     (case (if blocked b3 p2_new_position then Inr (True, b3)
            else case setitem (board b3) p2_new_position PLAYER2_POSITION of
                   Inl e \<Rightarrow> Inl e
                 | Inr a4 \<Rightarrow> Inr (False, b3\<lparr>board := a4, p2 := p2_new_position\<rparr>)) of
        Inl e \<Rightarrow> (Inl e, b3)
      | Inr (p2_dead, b4) \<Rightarrow> (Inr (p1_dead, p2_dead), b4)))))"

text \<open>Lines 101 to 111: who died decides \<open>gameover\<close> and \<open>winner\<close>.\<close>

definition check_dead :: "TronBoard \<Rightarrow> bool \<Rightarrow> bool \<Rightarrow> TronBoard" where
  "check_dead b p1_dead p2_dead =
     (if p1_dead then
        (if p2_dead then b\<lparr>gameover := True, winner := None\<rparr>
         else b\<lparr>gameover := True, winner := Some 2\<rparr>)
      else if p2_dead then b\<lparr>gameover := True, winner := Some 1\<rparr>
      else b)"

text \<open>Lines 58 to 61: a move that is \<open>None\<close> is replaced by the stored vector.\<close>

definition chosen :: "vec option \<Rightarrow> vec \<Rightarrow> vec" where
  "chosen player_move v = (case player_move of None \<Rightarrow> v | Some mv \<Rightarrow> mv)"

definition update ::
  "TronBoard \<Rightarrow> vec option \<Rightarrow> vec option \<Rightarrow> (error + bool) \<times> TronBoard" where
  "update b player1_move player2_move =
     (let move1 = chosen player1_move (v1 b);
          move2 = chosen player2_move (v2 b)
      in if \<not> contains VALID_VECTORS move1 then (Inl ValueError, b)
         else if \<not> contains VALID_VECTORS move2 then (Inl ValueError, b)
         else
           (let p1_new_position = vadd (p1 b) move1;
                p2_new_position = vadd (p2 b) move2
            in if p1_new_position = p2_new_position
               then (Inr False, b\<lparr>gameover := True, winner := None\<rparr>)
               else
                 (case move_players b p1_new_position p2_new_position of
                    (Inl e, b') \<Rightarrow> (Inl e, b')
                  | (Inr (p1_dead, p2_dead), b') \<Rightarrow>
                      (let b'' = check_dead b' p1_dead p2_dead
                       in (Inr (\<not> gameover b''), b'')))))"

subsection \<open>\<open>TronGame\<close>\<close>

text \<open>
  The two bots are taken as they are used: \<open>decide_move(board, position)\<close> answers a move
  or \<open>None\<close>; the random source of \<open>SimpleBot\<close> and the network of \<open>NNBot\<close> are
  outside the model. The flag \<open>show\<close> only switches printing and plotting, which are left
  out. \<open>update\<close> returns the board (in a tuple of length one), \<open>__next__\<close> the game.
\<close>

record TronGame =
  game_board :: TronBoard
  bot1 :: "TronBoard \<Rightarrow> vec \<Rightarrow> vec option"
  bot2 :: "TronBoard \<Rightarrow> vec \<Rightarrow> vec option"

definition TronGame_update :: "TronGame \<Rightarrow> (error + TronBoard) \<times> TronGame" where
  "TronGame_update g =
     (let p1_move = bot1 g (game_board g) (p1 (game_board g));
          p2_move = bot2 g (game_board g) (p2 (game_board g))
      in case update (game_board g) p1_move p2_move of
           (Inl e, b') \<Rightarrow> (Inl e, g\<lparr>game_board := b'\<rparr>)
         | (Inr r, b') \<Rightarrow> (Inr b', g\<lparr>game_board := b'\<rparr>))"

definition TronGame_next :: "TronGame \<Rightarrow> (error + unit) \<times> TronGame" where
  "TronGame_next g =
     (if gameover (game_board g) then (Inl StopIteration, g)
      else case TronGame_update g of
             (Inl e, g') \<Rightarrow> (Inl e, g')
           | (Inr b', g') \<Rightarrow> (Inr (), g'))"

subsection \<open>Vocabulary for the properties\<close>

text \<open>The grid bounds \<open>[0, width) \<times> [0, height)\<close> and the cell at a coordinate inside them.\<close>

definition in_grid :: "ndarray \<Rightarrow> vec \<Rightarrow> bool" where
  "in_grid a pos =
     (0 \<le> fst pos \<and> fst pos < int (shape0 a) \<and> 0 \<le> snd pos \<and> snd pos < int (shape1 a))"

definition cell_at :: "ndarray \<Rightarrow> vec \<Rightarrow> cell" where
  "cell_at a pos = item a (nat (fst pos)) (nat (snd pos))"

text \<open>The four axis-aligned unit vectors, as a property of a vector.\<close>

definition unit_vector :: "vec \<Rightarrow> bool" where
  "unit_vector mv = (mv = (0, 1) \<or> mv = (0, -1) \<or> mv = (1, 0) \<or> mv = (-1, 0))"

text \<open>
  Boards used as concrete inputs: the 5 x 5 scenario with player 1 at (1, 2) and vector
  (1, 0), player 2 at (3, 2) and vector (-1, 0); a 5 x 5 board with the players at (1, 1)
  and (3, 3), both with vector (1, 0); and the scenario board after the head-on draw.
\<close>

definition facing_board :: TronBoard where
  "facing_board = projr (TronBoard_init 5 5 (1, 2) (3, 2) (1, 0) (-1, 0))"

definition parallel_board :: TronBoard where
  "parallel_board = projr (TronBoard_init 5 5 (1, 1) (3, 3) (1, 0) (1, 0))"

definition drawn_board :: TronBoard where
  "drawn_board = snd (update facing_board None None)"

text \<open>The bounds check on constructor arguments, before any array exists.\<close>

definition in_bounds :: "int \<Rightarrow> int \<Rightarrow> vec \<Rightarrow> bool" where
  "in_bounds n m pos = (0 \<le> fst pos \<and> fst pos < n \<and> 0 \<le> snd pos \<and> snd pos < m)"

text \<open>Writing one cell at a coordinate inside the grid.\<close>

definition store :: "ndarray \<Rightarrow> vec \<Rightarrow> cell \<Rightarrow> ndarray" where
  "store a pos c =
     a\<lparr>item := (item a)(nat (fst pos) := (item a (nat (fst pos)))(nat (snd pos) := c))\<rparr>"

text \<open>
  The move phase as the specification words it (steps 6 and 7): both old cells become
  trail, then each player by itself is accepted exactly when \<open>valid_move\<close> holds for its
  candidate cell on that grid; an accepted player takes the cell and the position, a
  rejected one is dead and writes nothing.
\<close>

definition move_players_simultaneous ::
  "TronBoard \<Rightarrow> vec \<Rightarrow> vec \<Rightarrow> (error + bool \<times> bool) \<times> TronBoard" where
  "move_players_simultaneous b p1_new_position p2_new_position =
     (case setitem (board b) (p1 b) VISITED1 of
        Inl e \<Rightarrow> (Inl e, b)
      | Inr a1 \<Rightarrow>
     (case setitem a1 (p2 b) VISITED2 of
        Inl e \<Rightarrow> (Inl e, b\<lparr>board := a1\<rparr>)
      | Inr a2 \<Rightarrow>
     (let step6 = b\<lparr>board := a2\<rparr>;
          p1_dead = (\<not> valid_move step6 p1_new_position);
          p2_dead = (\<not> valid_move step6 p2_new_position);
          b3 = (if p1_dead then step6
                else step6\<lparr>board := store (board step6) p1_new_position PLAYER1_POSITION,
                           p1 := p1_new_position\<rparr>);
          b4 = (if p2_dead then b3
                else b3\<lparr>board := store (board b3) p2_new_position PLAYER2_POSITION,
                        p2 := p2_new_position\<rparr>)
      in (Inr (p1_dead, p2_dead), b4))))"

text \<open>The whole update with the simultaneous move phase in place of lines 80 to 99.\<close>

definition update_simultaneous ::
  "TronBoard \<Rightarrow> vec option \<Rightarrow> vec option \<Rightarrow> (error + bool) \<times> TronBoard" where
  "update_simultaneous b player1_move player2_move =
     (let move1 = chosen player1_move (v1 b);
          move2 = chosen player2_move (v2 b)
      in if \<not> contains VALID_VECTORS move1 then (Inl ValueError, b)
         else if \<not> contains VALID_VECTORS move2 then (Inl ValueError, b)
         else
           (let p1_new_position = vadd (p1 b) move1;
                p2_new_position = vadd (p2 b) move2
            in if p1_new_position = p2_new_position
               then (Inr False, b\<lparr>gameover := True, winner := None\<rparr>)
               else
                 (case move_players_simultaneous b p1_new_position p2_new_position of
                    (Inl e, b') \<Rightarrow> (Inl e, b')
                  | (Inr (p1_dead, p2_dead), b') \<Rightarrow>
                      (let b'' = check_dead b' p1_dead p2_dead
                       in (Inr (\<not> gameover b''), b'')))))"

text \<open>
  The boards that a sequence of \<open>update\<close> calls leads to, whatever the moves and
  whether a call returns or raises.
\<close>

inductive run :: "TronBoard \<Rightarrow> TronBoard \<Rightarrow> bool" where
  run_refl: "run b b"
| run_step: "run b b' \<Longrightarrow> run b (snd (update b' player1_move player2_move))"

text \<open>All coordinates of an array, and those of them whose cell holds a given code.\<close>

definition coordinates :: "ndarray \<Rightarrow> vec list" where
  "coordinates a = List.product (map int [0..<shape0 a]) (map int [0..<shape1 a])"

definition cells_holding :: "cell \<Rightarrow> ndarray \<Rightarrow> vec list" where
  "cells_holding c a = filter (\<lambda>pos. cell_at a pos = c) (coordinates a)"

text \<open>An array keeps its shape and no cell of it goes back to \<open>EMPTY\<close>.\<close>

definition grows :: "ndarray \<Rightarrow> ndarray \<Rightarrow> bool" where
  "grows a a' =
     (shape0 a' = shape0 a \<and> shape1 a' = shape1 a
      \<and> (\<forall>i j. item a i j \<noteq> EMPTY \<longrightarrow> item a' i j \<noteq> EMPTY))"

text \<open>
  Both players stand inside the grid, and the cells holding \<open>PLAYER1_POSITION\<close> and
  \<open>PLAYER2_POSITION\<close> are exactly the cells they stand on.
\<close>

definition players_marked :: "TronBoard \<Rightarrow> bool" where
  "players_marked b =
     (in_grid (board b) (p1 b) \<and> in_grid (board b) (p2 b)
      \<and> (\<forall>pos. in_grid (board b) pos \<longrightarrow>
             (cell_at (board b) pos = PLAYER1_POSITION \<longleftrightarrow> pos = p1 b)
           \<and> (cell_at (board b) pos = PLAYER2_POSITION \<longleftrightarrow> pos = p2 b)))"

text \<open>
  Two more concrete boards: a 3 x 3 board with the players in opposite corners, and a
  5 x 5 board on which the players face each other on adjacent cells.
\<close>

definition corner_board :: TronBoard where
  "corner_board = projr (TronBoard_init 3 3 (0, 0) (2, 2) (1, 0) (-1, 0))"

definition adjacent_board :: TronBoard where
  "adjacent_board = projr (TronBoard_init 5 5 (1, 2) (2, 2) (1, 0) (-1, 0))"

text \<open>
  The board after lines 81 and 82, for players inside the grid: both cells on which the
  players stand are marked as trail, nothing else is changed.
\<close>

definition trail_marked :: "TronBoard \<Rightarrow> TronBoard" where
  "trail_marked b = b\<lparr>board := store (store (board b) (p1 b) VISITED1) (p2 b) VISITED2\<rparr>"

text \<open>The scenario board after both players have moved by (0, 1).\<close>

definition moved_board :: TronBoard where
  "moved_board = snd (update facing_board (Some (0, 1)) (Some (0, 1)))"

definition idle_game :: TronGame where
  "idle_game = \<lparr>game_board = drawn_board, bot1 = (\<lambda>b pos. None), bot2 = (\<lambda>b pos. None)\<rparr>"

section \<open>Properties\<close>

subsection \<open>Array access\<close>

lemma axis_index_nonneg:
  "0 \<le> i \<Longrightarrow> axis_index d i = (if i < int d then Some (nat i) else None)"
  by (simp add: axis_index_def)

lemma getitem_in_grid: "in_grid a pos \<Longrightarrow> getitem a pos = Inr (cell_at a pos)"
  by (simp add: getitem_def in_grid_def cell_at_def axis_index_nonneg)

lemma getitem_off_grid:
  "0 \<le> fst pos \<Longrightarrow> 0 \<le> snd pos \<Longrightarrow> \<not> in_grid a pos \<Longrightarrow> getitem a pos = Inl IndexError"
  by (auto simp add: getitem_def in_grid_def axis_index_nonneg)

lemma contains_VALID_VECTORS:
  "contains VALID_VECTORS mv \<longleftrightarrow>
     fst mv \<in> {-1, 0, 1} \<or> snd mv \<in> {-1, 0, 1}"
  by (auto simp add: contains_def VALID_VECTORS_def)

lemma unit_vector_contained: "unit_vector mv \<Longrightarrow> contains VALID_VECTORS mv"
  by (auto simp add: unit_vector_def contains_VALID_VECTORS)

lemmas board_defs =
  TronBoard_init_def zeros_def setitem_def getitem_def axis_index_def

lemmas update_defs =
  update_def chosen_def contains_def VALID_VECTORS_def vadd_def move_players_def
  blocked_def valid_move_def check_dead_def Let_def

lemma facing_board_init:
  "TronBoard_init 5 5 (1, 2) (3, 2) (1, 0) (-1, 0) = Inr facing_board"
  by (simp add: facing_board_def board_defs)

lemma parallel_board_init:
  "TronBoard_init 5 5 (1, 1) (3, 3) (1, 0) (1, 0) = Inr parallel_board"
  by (simp add: parallel_board_def board_defs)

lemma valid_move_eq:
  "valid_move b pos \<longleftrightarrow> in_grid (board b) pos \<and> cell_at (board b) pos = EMPTY"
proof (cases "fst pos < 0 \<or> snd pos < 0")
  case True
  then show ?thesis by (auto simp add: valid_move_def in_grid_def)
next
  case False
  then have nonneg: "0 \<le> fst pos" "0 \<le> snd pos" by simp_all
  show ?thesis
  proof (cases "in_grid (board b) pos")
    case True
    with False show ?thesis by (simp add: valid_move_def getitem_in_grid)
  next
    case False
    with nonneg show ?thesis by (simp add: valid_move_def getitem_off_grid)
  qed
qed

subsection \<open>\<open>valid_move\<close>\<close>

text \<open>
  C6. \<open>valid_move\<close> answers \<open>True\<close> exactly for a coordinate inside
  \<open>[0, width) \<times> [0, height)\<close> whose cell is \<open>EMPTY\<close>; so it answers \<open>False\<close> for every
  coordinate outside the grid, negative ones included, and for every coordinate inside
  whose cell is occupied or trail.
\<close>

theorem valid_move_iff:
  "valid_move b pos \<longleftrightarrow> in_grid (board b) pos \<and> cell_at (board b) pos = EMPTY"
  by (fact valid_move_eq)

theorem valid_move_iff_witness:
  "valid_move facing_board (2, 2) \<and> \<not> valid_move facing_board (1, 2)
   \<and> \<not> valid_move facing_board (-1, 2) \<and> \<not> valid_move facing_board (5, 0)
   \<and> \<not> valid_move facing_board (0, 5)"
  using valid_move_iff [of facing_board "(2, 2)"] valid_move_iff [of facing_board "(1, 2)"]
    valid_move_iff [of facing_board "(-1, 2)"] valid_move_iff [of facing_board "(5, 0)"]
    valid_move_iff [of facing_board "(0, 5)"]
  by (simp add: facing_board_def board_defs in_grid_def cell_at_def)

subsection \<open>Helper facts on cells and on the move phase\<close>

lemma setitem_in_grid: "in_grid a pos \<Longrightarrow> setitem a pos c = Inr (store a pos c)"
  by (simp add: setitem_def in_grid_def store_def axis_index_nonneg)

lemma in_grid_store [simp]: "in_grid (store a pos c) q = in_grid a q"
  by (simp add: in_grid_def store_def)

lemma cell_at_store:
  "0 \<le> fst pos \<Longrightarrow> 0 \<le> snd pos \<Longrightarrow> 0 \<le> fst q \<Longrightarrow> 0 \<le> snd q \<Longrightarrow>
   cell_at (store a pos c) q = (if q = pos then c else cell_at a q)"
  by (auto simp add: cell_at_def store_def prod_eq_iff)

lemma cell_at_store_in_grid:
  "in_grid a pos \<Longrightarrow> in_grid a q \<Longrightarrow>
   cell_at (store a pos c) q = (if q = pos then c else cell_at a q)"
  by (simp add: cell_at_store in_grid_def)

lemma blocked_iff: "blocked b pos \<longleftrightarrow> \<not> valid_move b pos"
  by (auto simp add: blocked_def valid_move_eq getitem_in_grid)

lemma valid_move_in_grid: "valid_move b pos \<Longrightarrow> in_grid (board b) pos"
  by (simp add: valid_move_eq)

lemma valid_move_board: "board b = board b' \<Longrightarrow> valid_move b pos = valid_move b' pos"
  by (simp add: valid_move_def)

lemma valid_move_after_store:
  assumes "in_grid (board b) q" "q \<noteq> pos" "board b' = store (board b) q c"
  shows "valid_move b' pos = valid_move b pos"
  using assms by (auto simp add: valid_move_eq cell_at_store_in_grid)

lemma valid_move_setitem:
  "valid_move b pos \<Longrightarrow> setitem (board b) pos c = Inr (store (board b) pos c)"
  by (simp add: setitem_in_grid valid_move_in_grid)

lemma move_players_eq:
  assumes "p1_new_position \<noteq> p2_new_position"
  shows "move_players b p1_new_position p2_new_position
         = move_players_simultaneous b p1_new_position p2_new_position"
proof (cases "setitem (board b) (p1 b) VISITED1")
  case (Inl e)
  then show ?thesis by (simp add: move_players_def move_players_simultaneous_def)
next
  case a1: (Inr a1)
  show ?thesis
  proof (cases "setitem a1 (p2 b) VISITED2")
    case (Inl e)
    with a1 show ?thesis by (simp add: move_players_def move_players_simultaneous_def)
  next
    case a2: (Inr a2)
    let ?b2 = "b\<lparr>board := a2\<rparr>"
    let ?b3 = "?b2\<lparr>board := store a2 p1_new_position PLAYER1_POSITION, p1 := p1_new_position\<rparr>"
    have w1: "setitem a2 p1_new_position PLAYER1_POSITION
              = Inr (store a2 p1_new_position PLAYER1_POSITION)"
      if "valid_move ?b2 p1_new_position"
      using valid_move_setitem [OF that] by simp
    have w2: "setitem a2 p2_new_position PLAYER2_POSITION
              = Inr (store a2 p2_new_position PLAYER2_POSITION)"
      if "valid_move ?b2 p2_new_position"
      using valid_move_setitem [OF that] by simp
    have same: "valid_move ?b3 p2_new_position = valid_move ?b2 p2_new_position"
      if "valid_move ?b2 p1_new_position"
      by (rule valid_move_after_store [where q = p1_new_position and c = PLAYER1_POSITION])
         (use that assms valid_move_in_grid [OF that] in simp_all)
    have w3: "setitem (store a2 p1_new_position PLAYER1_POSITION) p2_new_position PLAYER2_POSITION
              = Inr (store (store a2 p1_new_position PLAYER1_POSITION) p2_new_position PLAYER2_POSITION)"
      if "valid_move ?b3 p2_new_position"
      using valid_move_setitem [OF that] by simp
    show ?thesis
    proof (cases "valid_move ?b2 p1_new_position")
      case False
      with a1 a2 w2 show ?thesis
        by (simp add: move_players_def move_players_simultaneous_def blocked_iff Let_def)
    next
      case True
      with a1 a2 w1 w3 same show ?thesis
        by (simp add: move_players_def move_players_simultaneous_def blocked_iff Let_def)
    qed
  qed
qed

lemma update_eq: "update b m1 m2 = update_simultaneous b m1 m2"
  by (simp add: update_def update_simultaneous_def Let_def move_players_eq)


lemma grows_refl: "grows a a"
  by (simp add: grows_def)

lemma grows_trans: "grows a a' \<Longrightarrow> grows a' a'' \<Longrightarrow> grows a a''"
  by (simp add: grows_def)

lemma store_grows: "c \<noteq> EMPTY \<Longrightarrow> grows a (store a pos c)"
  by (simp add: grows_def store_def)

lemma setitem_grows: "setitem a pos c = Inr a' \<Longrightarrow> c \<noteq> EMPTY \<Longrightarrow> grows a a'"
  by (auto simp add: setitem_def grows_def split: option.splits if_splits)

lemma move_players_simultaneous_frame:
  "gameover (snd (move_players_simultaneous b n1 n2)) = gameover b"
  "winner (snd (move_players_simultaneous b n1 n2)) = winner b"
  "v1 (snd (move_players_simultaneous b n1 n2)) = v1 b"
  "v2 (snd (move_players_simultaneous b n1 n2)) = v2 b"
  by (simp_all add: move_players_simultaneous_def Let_def split: sum.splits)

lemma move_players_simultaneous_grows:
  "grows (board b) (board (snd (move_players_simultaneous b n1 n2)))"
proof (cases "setitem (board b) (p1 b) VISITED1")
  case (Inl e)
  then show ?thesis by (simp add: move_players_simultaneous_def grows_refl)
next
  case a1: (Inr a1)
  then have g1: "grows (board b) a1" by (rule setitem_grows) simp
  show ?thesis
  proof (cases "setitem a1 (p2 b) VISITED2")
    case (Inl e)
    with a1 g1 show ?thesis by (simp add: move_players_simultaneous_def)
  next
    case a2: (Inr a2)
    then have "grows a1 a2" by (rule setitem_grows) simp
    with g1 have g2: "grows (board b) a2" by (rule grows_trans)
    have g3: "grows (board b) (store a2 n1 PLAYER1_POSITION)"
      by (rule grows_trans [OF g2]) (simp add: store_grows)
    have g4: "grows (board b) (store a2 n2 PLAYER2_POSITION)"
      by (rule grows_trans [OF g2]) (simp add: store_grows)
    have g5: "grows (board b) (store (store a2 n1 PLAYER1_POSITION) n2 PLAYER2_POSITION)"
      by (rule grows_trans [OF g3]) (simp add: store_grows)
    from a1 a2 g2 g3 g4 g5 show ?thesis
      by (simp add: move_players_simultaneous_def Let_def)
  qed
qed

lemma check_dead_frame:
  "board (check_dead b d1 d2) = board b"
  "p1 (check_dead b d1 d2) = p1 b"
  "p2 (check_dead b d1 d2) = p2 b"
  "v1 (check_dead b d1 d2) = v1 b"
  "v2 (check_dead b d1 d2) = v2 b"
  "gameover (check_dead b d1 d2) = (gameover b \<or> d1 \<or> d2)"
  by (simp_all add: check_dead_def)

lemma update_simultaneous_cases:
  obtains (invalid) "update_simultaneous b m1 m2 = (Inl ValueError, b)"
  | (head_on) "update_simultaneous b m1 m2 = (Inr False, b\<lparr>gameover := True, winner := None\<rparr>)"
  | (raised) e where
      "vadd (p1 b) (chosen m1 (v1 b)) \<noteq> vadd (p2 b) (chosen m2 (v2 b))"
      "fst (move_players_simultaneous b (vadd (p1 b) (chosen m1 (v1 b))) (vadd (p2 b) (chosen m2 (v2 b)))) = Inl e"
      "update_simultaneous b m1 m2 = (Inl e, snd (move_players_simultaneous b (vadd (p1 b) (chosen m1 (v1 b))) (vadd (p2 b) (chosen m2 (v2 b)))))"
  | (moved) d1 d2 where
      "vadd (p1 b) (chosen m1 (v1 b)) \<noteq> vadd (p2 b) (chosen m2 (v2 b))"
      "fst (move_players_simultaneous b (vadd (p1 b) (chosen m1 (v1 b))) (vadd (p2 b) (chosen m2 (v2 b)))) = Inr (d1, d2)"
      "update_simultaneous b m1 m2 =
         (Inr (\<not> gameover (check_dead (snd (move_players_simultaneous b (vadd (p1 b) (chosen m1 (v1 b))) (vadd (p2 b) (chosen m2 (v2 b))))) d1 d2)),
          check_dead (snd (move_players_simultaneous b (vadd (p1 b) (chosen m1 (v1 b))) (vadd (p2 b) (chosen m2 (v2 b))))) d1 d2)"
proof -
  let ?n1 = "vadd (p1 b) (chosen m1 (v1 b))" and ?n2 = "vadd (p2 b) (chosen m2 (v2 b))"
  obtain r b' where mp: "move_players_simultaneous b ?n1 ?n2 = (r, b')"
    by (cases "move_players_simultaneous b ?n1 ?n2")
  show thesis
  proof (cases "contains VALID_VECTORS (chosen m1 (v1 b)) \<and> contains VALID_VECTORS (chosen m2 (v2 b))")
    case False
    then have "update_simultaneous b m1 m2 = (Inl ValueError, b)"
      by (auto simp add: update_simultaneous_def Let_def)
    then show thesis by (rule invalid)
  next
    case ok: True
    show thesis
    proof (cases "?n1 = ?n2")
      case True
      with ok have "update_simultaneous b m1 m2 = (Inr False, b\<lparr>gameover := True, winner := None\<rparr>)"
        by (simp add: update_simultaneous_def Let_def)
      then show thesis by (rule head_on)
    next
      case ne: False
      show thesis
      proof (cases r)
        case (Inl e)
        with ok ne mp show thesis
          by (intro raised [of e]) (simp_all add: update_simultaneous_def Let_def)
      next
        case (Inr d)
        obtain d1 d2 where "d = (d1, d2)" by (cases d)
        with Inr ok ne mp show thesis
          by (intro moved [of d1 d2]) (simp_all add: update_simultaneous_def Let_def)
      qed
    qed
  qed
qed

lemma update_gameover_mono: "gameover b \<Longrightarrow> gameover (snd (update b m1 m2))"
  unfolding update_eq
  by (rule update_simultaneous_cases [of b m1 m2])
     (simp_all add: check_dead_frame move_players_simultaneous_frame)

lemma update_never_true_after_gameover:
  "gameover b \<Longrightarrow> fst (update b m1 m2) \<noteq> Inr True"
  unfolding update_eq
  by (rule update_simultaneous_cases [of b m1 m2])
     (simp_all add: check_dead_frame move_players_simultaneous_frame)

lemma update_grows: "grows (board b) (board (snd (update b m1 m2)))"
  unfolding update_eq
  by (rule update_simultaneous_cases [of b m1 m2])
     (simp_all add: check_dead_frame move_players_simultaneous_grows grows_refl)

lemma update_vectors:
  "v1 (snd (update b m1 m2)) = v1 b" "v2 (snd (update b m1 m2)) = v2 b"
  unfolding update_eq
  by (rule update_simultaneous_cases [of b m1 m2];
      simp add: check_dead_frame move_players_simultaneous_frame)+

subsection \<open>Head-on collision\<close>

text \<open>
  C5. When the moves pass the validation and the two new positions, both computed from
  the positions before the update, coincide, \<open>update\<close> answers \<open>False\<close> and changes
  nothing but \<open>gameover\<close>, now \<open>True\<close>, and \<open>winner\<close>, now \<open>None\<close>: no cell is written,
  both old positions stay marked as occupied, and the players stay where they were.
\<close>

theorem head_on_draw:
  assumes "contains VALID_VECTORS (chosen player1_move (v1 b))"
    and "contains VALID_VECTORS (chosen player2_move (v2 b))"
    and "vadd (p1 b) (chosen player1_move (v1 b)) = vadd (p2 b) (chosen player2_move (v2 b))"
  shows "update b player1_move player2_move = (Inr False, b\<lparr>gameover := True, winner := None\<rparr>)"
  using assms by (simp add: update_def Let_def)

text \<open>The scenario of the 5 x 5 grid: one update ends the game in a draw.\<close>

theorem head_on_draw_witness:
  "\<not> gameover facing_board
   \<and> vadd (p1 facing_board) (chosen None (v1 facing_board)) = (2, 2)
   \<and> vadd (p2 facing_board) (chosen None (v2 facing_board)) = (2, 2)
   \<and> update facing_board None None = (Inr False, facing_board\<lparr>gameover := True, winner := None\<rparr>)
   \<and> gameover (snd (update facing_board None None))
   \<and> winner (snd (update facing_board None None)) = None
   \<and> board (snd (update facing_board None None)) = board facing_board"
proof -
  have vs: "v1 facing_board = (1, 0)" "v2 facing_board = (-1, 0)"
    and ps: "p1 facing_board = (1, 2)" "p2 facing_board = (3, 2)"
    and g: "\<not> gameover facing_board"
    by (simp_all add: facing_board_def board_defs)
  have c1: "contains VALID_VECTORS (chosen None (v1 facing_board))"
    and c2: "contains VALID_VECTORS (chosen None (v2 facing_board))"
    by (simp_all add: vs chosen_def contains_VALID_VECTORS)
  have eq: "vadd (p1 facing_board) (chosen None (v1 facing_board))
            = vadd (p2 facing_board) (chosen None (v2 facing_board))"
    by (simp add: vs ps chosen_def vadd_def)
  show ?thesis
    using head_on_draw [OF c1 c2 eq] g by (simp add: vs ps chosen_def vadd_def)
qed

subsection \<open>Validation of the moves\<close>

lemma setitem_error: "setitem a pos c = Inl e \<Longrightarrow> e = IndexError"
  by (auto simp add: setitem_def split: option.splits)

lemma move_players_simultaneous_error:
  "fst (move_players_simultaneous b n1 n2) = Inl e \<Longrightarrow> e = IndexError"
  by (auto simp add: move_players_simultaneous_def Let_def dest: setitem_error split: sum.splits)

text \<open>
  What the code does: \<open>ValueError\<close> is raised exactly when a move, after the replacement
  of \<open>None\<close>, fails the membership test, and that test lets a vector pass as soon as one
  of its components is -1, 0 or 1. The four unit vectors pass.
\<close>

lemma update_ValueError_iff:
  "fst (update b player1_move player2_move) = Inl ValueError \<longleftrightarrow>
     \<not> contains VALID_VECTORS (chosen player1_move (v1 b))
     \<or> \<not> contains VALID_VECTORS (chosen player2_move (v2 b))"
proof -
  let ?n1 = "vadd (p1 b) (chosen player1_move (v1 b))"
  let ?n2 = "vadd (p2 b) (chosen player2_move (v2 b))"
  obtain r b' where mp: "move_players_simultaneous b ?n1 ?n2 = (r, b')"
    by (cases "move_players_simultaneous b ?n1 ?n2")
  then have "r \<noteq> Inl ValueError"
    using move_players_simultaneous_error [of b ?n1 ?n2] by auto
  with mp show ?thesis
    by (auto simp add: update_eq update_simultaneous_def Let_def split: sum.splits)
qed

lemma update_unit_vectors_pass:
  "unit_vector mv1 \<Longrightarrow> unit_vector mv2 \<Longrightarrow> fst (update b (Some mv1) (Some mv2)) \<noteq> Inl ValueError"
  by (simp add: update_ValueError_iff chosen_def unit_vector_contained)

text \<open>
  C1. \<open>update\<close> should raise for every given move that is not one of the four unit
  vectors, the diagonal (1, 1) for one. The code does not: (1, 1) is not a unit vector,
  yet the membership test lets it pass, and on the 5 x 5 scenario board the update
  returns \<open>True\<close> with player 1 moved diagonally to (2, 3).
\<close>

theorem update_accepts_diagonal:
  "\<not> unit_vector (1, 1)
   \<and> fst (update facing_board (Some (1, 1)) (Some (0, 1))) = Inr True
   \<and> p1 (snd (update facing_board (Some (1, 1)) (Some (0, 1)))) = (2, 3)"
  by (simp add: unit_vector_def facing_board_def board_defs update_defs)

subsection \<open>The stored vector\<close>

text \<open>
  C3. The move applied in a tick should become the stored vector of the player, so that
  \<open>None\<close> on a later tick continues straight on. The code never assigns \<open>v1\<close> or \<open>v2\<close>
  (lemma \<open>update_vectors\<close>): they stay those of the construction. On the board where
  both stored vectors are (1, 0), a first update moves player 1 by (0, 1) and player 2
  by (0, -1); a second update with \<open>None\<close> for both then moves them by (1, 0) again, to
  (2, 2) and (4, 2), and not straight on to (1, 3) and (3, 1).
\<close>

theorem update_none_uses_initial_vector:
  "p1 (snd (update parallel_board (Some (0, 1)) (Some (0, -1)))) = (1, 2)
   \<and> p2 (snd (update parallel_board (Some (0, 1)) (Some (0, -1)))) = (3, 2)
   \<and> fst (update parallel_board (Some (0, 1)) (Some (0, -1))) = Inr True
   \<and> p1 (snd (update (snd (update parallel_board (Some (0, 1)) (Some (0, -1)))) None None))
       = (2, 2)
   \<and> p2 (snd (update (snd (update parallel_board (Some (0, 1)) (Some (0, -1)))) None None))
       = (4, 2)"
  by (simp add: parallel_board_def board_defs update_defs)

subsection \<open>Order of the two moves\<close>

text \<open>
  C8. Outside the head-on branch the two candidate cells differ, and then the move phase
  of the code, which checks and moves player 1 before it checks player 2, is the move
  phase in which each player is accepted exactly when \<open>valid_move\<close> holds for its cell
  on the grid with both old cells marked as trail: the same death flags and the same
  board, positions included. So the whole update is the update with the simultaneous
  move phase, winner and return value included.
\<close>

theorem sequential_moves_are_simultaneous:
  "(p1_new_position \<noteq> p2_new_position \<longrightarrow>
      move_players b p1_new_position p2_new_position
      = move_players_simultaneous b p1_new_position p2_new_position)
   \<and> update b player1_move player2_move = update_simultaneous b player1_move player2_move"
  by (simp add: move_players_eq update_eq)

theorem sequential_moves_are_simultaneous_witness:
  "(1, 3) \<noteq> ((3, 3) :: vec)
   \<and> move_players facing_board (1, 3) (3, 3) = move_players_simultaneous facing_board (1, 3) (3, 3)
   \<and> fst (move_players facing_board (1, 3) (3, 3)) = Inr (False, False)
   \<and> update facing_board (Some (0, 1)) (Some (0, 1))
       = update_simultaneous facing_board (Some (0, 1)) (Some (0, 1))
   \<and> fst (update facing_board (Some (0, 1)) (Some (0, 1))) = Inr True"
proof -
  have "fst (move_players facing_board (1, 3) (3, 3)) = Inr (False, False)"
    by (simp add: facing_board_def board_defs update_defs)
  moreover have "fst (update facing_board (Some (0, 1)) (Some (0, 1))) = Inr True"
    by (simp add: facing_board_def board_defs update_defs)
  ultimately show ?thesis
    using sequential_moves_are_simultaneous
      [of "(1, 3)" "(3, 3)" facing_board "Some (0, 1)" "Some (0, 1)"]
    by simp
qed

text \<open>
  The hypothesis is needed: on one and the same free cell the code lets player 1 in and
  then finds the cell taken for player 2, while the simultaneous phase accepts both.
\<close>

lemma same_cell_differs:
  "fst (move_players facing_board (2, 2) (2, 2)) = Inr (False, True)
   \<and> fst (move_players_simultaneous facing_board (2, 2) (2, 2)) = Inr (False, False)"
  by (simp add: facing_board_def board_defs update_defs move_players_simultaneous_def)

subsection \<open>Updates after the end of the game\<close>

text \<open>
  C2 as stated fails: \<open>update\<close> does not look at \<open>gameover\<close>. On the board left by the
  head-on draw a further update moves both players by (0, 1).
\<close>

theorem update_after_gameover_counterexample:
  "\<not> (gameover drawn_board \<longrightarrow>
        winner (snd (update drawn_board (Some (0, 1)) (Some (0, 1)))) = winner drawn_board
      \<and> board (snd (update drawn_board (Some (0, 1)) (Some (0, 1)))) = board drawn_board
      \<and> p1 (snd (update drawn_board (Some (0, 1)) (Some (0, 1)))) = p1 drawn_board
      \<and> p2 (snd (update drawn_board (Some (0, 1)) (Some (0, 1)))) = p2 drawn_board)"
proof -
  have "gameover drawn_board"
    by (simp add: drawn_board_def facing_board_def board_defs update_defs)
  moreover have "p1 drawn_board = (1, 2)"
    by (simp add: drawn_board_def facing_board_def board_defs update_defs)
  moreover have "p1 (snd (update drawn_board (Some (0, 1)) (Some (0, 1)))) = (1, 3)"
    by (simp add: drawn_board_def facing_board_def board_defs update_defs)
  ultimately show ?thesis by simp
qed

text \<open>
  C2, amended. The guard against a finished game is in the game loop: when the board
  of a game is over, \<open>__next__\<close> raises \<open>StopIteration\<close> without calling \<open>update\<close>, so the
  game and its board stay as they are. \<open>update\<close> itself, called on such a board, never
  sets \<open>gameover\<close> back and never answers \<open>True\<close>.
\<close>

theorem gameover_guarded_by_game_loop:
  assumes "gameover (game_board g)"
  shows "TronGame_next g = (Inl StopIteration, g)
         \<and> gameover (snd (update (game_board g) player1_move player2_move))
         \<and> fst (update (game_board g) player1_move player2_move) \<noteq> Inr True"
  using assms
  by (simp add: TronGame_next_def update_gameover_mono update_never_true_after_gameover)

theorem gameover_guarded_by_game_loop_witness:
  "gameover (game_board idle_game)
   \<and> TronGame_next idle_game = (Inl StopIteration, idle_game)
   \<and> gameover (snd (update (game_board idle_game) (Some (0, 1)) (Some (0, 1))))
   \<and> fst (update (game_board idle_game) (Some (0, 1)) (Some (0, 1))) \<noteq> Inr True"
proof -
  have over: "gameover (game_board idle_game)"
    by (simp add: idle_game_def drawn_board_def facing_board_def board_defs update_defs)
  show ?thesis
    using gameover_guarded_by_game_loop [OF over, of "Some (0, 1)" "Some (0, 1)"] over
    by simp
qed

subsection \<open>The constructor\<close>

lemma TronBoard_init_nonneg:
  assumes "0 \<le> fst pos1" "0 \<le> snd pos1" "0 \<le> fst pos2" "0 \<le> snd pos2"
  shows "TronBoard_init n m pos1 pos2 vec1 vec2 =
     (if pos1 = pos2 then Inl AssertionError
      else if n < 0 \<or> m < 0 then Inl ValueError
      else if \<not> in_bounds n m pos1 \<or> \<not> in_bounds n m pos2 then Inl IndexError
      else Inr \<lparr>board = store (store \<lparr>shape0 = nat n, shape1 = nat m, item = (\<lambda>i j. EMPTY)\<rparr>
                                   pos1 PLAYER1_POSITION) pos2 PLAYER2_POSITION,
                gameover = False, winner = None,
                p1 = pos1, p2 = pos2, v1 = vec1, v2 = vec2\<rparr>)"
  using assms
  by (auto simp add: TronBoard_init_def zeros_def setitem_def axis_index_nonneg in_bounds_def store_def)

lemma shape_store [simp]:
  "shape0 (store a pos c) = shape0 a" "shape1 (store a pos c) = shape1 a"
  by (simp_all add: store_def)

text \<open>
  A negative coordinate down to \<open>-n\<close> (or \<open>-m\<close>) is not out of range for numpy: it counts
  from the far edge, and the constructor succeeds with it.
\<close>

lemma constructor_negative_position_wraps:
  "\<not> isl (TronBoard_init 5 5 (1, 2) (-1, -1) (1, 0) (-1, 0))
   \<and> cell_at (board (projr (TronBoard_init 5 5 (1, 2) (-1, -1) (1, 0) (-1, 0)))) (4, 4)
       = PLAYER2_POSITION"
  by (simp add: board_defs cell_at_def)

text \<open>
  C4 as stated fails: the constructor never looks at the two vectors. With the diagonal
  (1, 1) as first vector, distinct positions and both inside the 5 x 5 grid, it succeeds.
\<close>

theorem constructor_counterexample:
  "\<not> (isl (TronBoard_init 5 5 (1, 2) (3, 2) (1, 1) (-1, 0)) \<longleftrightarrow>
        ((1, 2) :: vec) = (3, 2) \<or> \<not> in_bounds 5 5 (1, 2) \<or> \<not> in_bounds 5 5 (3, 2)
        \<or> \<not> unit_vector (1, 1) \<or> \<not> unit_vector (-1, 0))"
  by (simp add: board_defs in_bounds_def unit_vector_def)

text \<open>
  C4, amended. For positions with coordinates that are not negative, the constructor
  fails exactly when the positions are equal or one of them is outside
  \<open>[0, n) \<times> [0, m)\<close>; the vectors are stored as given. On success the array has
  shape \<open>(n, m)\<close>, the two starting cells hold \<open>PLAYER1_POSITION\<close> and
  \<open>PLAYER2_POSITION\<close>, every other cell is \<open>EMPTY\<close>, and the game is not over.
\<close>

theorem constructor_checks_positions_only:
  assumes "0 \<le> fst pos1" "0 \<le> snd pos1" "0 \<le> fst pos2" "0 \<le> snd pos2"
  shows "(isl (TronBoard_init n m pos1 pos2 vec1 vec2) \<longleftrightarrow>
            pos1 = pos2 \<or> \<not> in_bounds n m pos1 \<or> \<not> in_bounds n m pos2)
       \<and> (\<forall>b. TronBoard_init n m pos1 pos2 vec1 vec2 = Inr b \<longrightarrow>
             shape0 (board b) = nat n \<and> shape1 (board b) = nat m
           \<and> (\<forall>pos. in_grid (board b) pos \<longrightarrow>
                cell_at (board b) pos =
                  (if pos = pos1 then PLAYER1_POSITION
                   else if pos = pos2 then PLAYER2_POSITION else EMPTY))
           \<and> p1 b = pos1 \<and> p2 b = pos2 \<and> v1 b = vec1 \<and> v2 b = vec2
           \<and> \<not> gameover b \<and> winner b = None)"
proof -
  note init = TronBoard_init_nonneg [OF assms, of n m vec1 vec2]
  have fails: "isl (TronBoard_init n m pos1 pos2 vec1 vec2) \<longleftrightarrow>
            pos1 = pos2 \<or> \<not> in_bounds n m pos1 \<or> \<not> in_bounds n m pos2"
    by (auto simp add: init in_bounds_def)
  have ok: "shape0 (board b) = nat n \<and> shape1 (board b) = nat m
           \<and> (\<forall>pos. in_grid (board b) pos \<longrightarrow>
                cell_at (board b) pos =
                  (if pos = pos1 then PLAYER1_POSITION
                   else if pos = pos2 then PLAYER2_POSITION else EMPTY))
           \<and> p1 b = pos1 \<and> p2 b = pos2 \<and> v1 b = vec1 \<and> v2 b = vec2
           \<and> \<not> gameover b \<and> winner b = None"
    if "TronBoard_init n m pos1 pos2 vec1 vec2 = Inr b" for b
  proof -
    from that have ne: "pos1 \<noteq> pos2" and b: "b = \<lparr>board = store (store \<lparr>shape0 = nat n, shape1 = nat m, item = (\<lambda>i j. EMPTY)\<rparr>
                                   pos1 PLAYER1_POSITION) pos2 PLAYER2_POSITION,
                gameover = False, winner = None,
                p1 = pos1, p2 = pos2, v1 = vec1, v2 = vec2\<rparr>"
      by (auto simp add: init split: if_splits)
    have "cell_at (board b) pos =
                  (if pos = pos1 then PLAYER1_POSITION
                   else if pos = pos2 then PLAYER2_POSITION else EMPTY)"
      if "in_grid (board b) pos" for pos
      using that assms ne
      by (simp add: b cell_at_store in_grid_def) (simp add: cell_at_def)
    then show ?thesis by (simp add: b)
  qed
  from fails ok show ?thesis by blast
qed

theorem constructor_checks_positions_only_witness:
  "(0::int) \<le> fst ((1, 2)::vec) \<and> (0::int) \<le> snd ((1, 2)::vec) \<and> (0::int) \<le> fst ((3, 2)::vec) \<and> (0::int) \<le> snd ((3, 2)::vec)
   \<and> \<not> isl (TronBoard_init 5 5 (1, 2) (3, 2) (1, 1) (7, 7))
   \<and> TronBoard_init 5 5 (1, 2) (3, 2) (1, 0) (-1, 0) = Inr facing_board
   \<and> cell_at (board facing_board) (1, 2) = PLAYER1_POSITION
   \<and> cell_at (board facing_board) (3, 2) = PLAYER2_POSITION
   \<and> cell_at (board facing_board) (2, 2) = EMPTY"
proof -
  have nn: "(0::int) \<le> fst ((1, 2)::vec)" "(0::int) \<le> snd ((1, 2)::vec)"
    "(0::int) \<le> fst ((3, 2)::vec)" "(0::int) \<le> snd ((3, 2)::vec)" by simp_all
  have g: "in_grid (board facing_board) (1, 2)" "in_grid (board facing_board) (3, 2)"
    "in_grid (board facing_board) (2, 2)"
    by (simp_all add: facing_board_def board_defs in_grid_def)
  show ?thesis
    using constructor_checks_positions_only [OF nn, of 5 5 "(1, 1)" "(7, 7)"]
      constructor_checks_positions_only [OF nn, of 5 5 "(1, 0)" "(-1, 0)"]
      facing_board_init g
    by (simp add: in_bounds_def)
qed

subsection \<open>Who wins\<close>

lemma move_players_simultaneous_in_grid:
  assumes "in_grid (board b) (p1 b)" "in_grid (board b) (p2 b)"
  shows "move_players_simultaneous b n1 n2 =
     (let step6 = b\<lparr>board := store (store (board b) (p1 b) VISITED1) (p2 b) VISITED2\<rparr>;
          p1_dead = (\<not> valid_move step6 n1);
          p2_dead = (\<not> valid_move step6 n2);
          b3 = (if p1_dead then step6
                else step6\<lparr>board := store (board step6) n1 PLAYER1_POSITION, p1 := n1\<rparr>);
          b4 = (if p2_dead then b3
                else b3\<lparr>board := store (board b3) n2 PLAYER2_POSITION, p2 := n2\<rparr>)
      in (Inr (p1_dead, p2_dead), b4))"
  using assms by (simp add: move_players_simultaneous_def setitem_in_grid)

lemma move_players_returns:
  assumes "in_grid (board b) (p1 b)" "in_grid (board b) (p2 b)"
  shows "\<exists>p1_dead p2_dead. fst (move_players_simultaneous b n1 n2) = Inr (p1_dead, p2_dead)"
  by (simp add: move_players_simultaneous_in_grid [OF assms] Let_def)

text \<open>
  \<open>trail_marked\<close> is the board the code has after its two trail writes, when both players
  stand inside the grid.
\<close>

lemma trail_marked_setitem:
  assumes "in_grid (board b) (p1 b)" and "in_grid (board b) (p2 b)"
  shows "setitem (board b) (p1 b) VISITED1 = Inr (store (board b) (p1 b) VISITED1)"
    and "setitem (store (board b) (p1 b) VISITED1) (p2 b) VISITED2
         = Inr (board (trail_marked b))"
  using assms by (simp_all add: setitem_in_grid trail_marked_def)

text \<open>
  C7. On a board that is not over and has both players inside the grid, with moves that
  pass the validation and lead to different cells, the move phase returns the two death
  flags, and a player is dead exactly when \<open>valid_move\<close> fails for its new cell on the
  grid with both old cells marked as trail. The update ends as the flags say: the game
  is over exactly when a player died; the winner is \<open>None\<close> when both died, player 2
  when only player 1 died and player 1 when only player 2 died, and is left as it was
  when nobody died; a dead player stays where it was and a surviving one stands on its
  new cell; and the value returned is \<open>True\<close> exactly when the game is still not over,
  that is, when both new cells were free.
\<close>

theorem update_outcome:
  assumes "\<not> gameover b"
    and "contains VALID_VECTORS (chosen player1_move (v1 b))"
    and "contains VALID_VECTORS (chosen player2_move (v2 b))"
    and "vadd (p1 b) (chosen player1_move (v1 b)) \<noteq> vadd (p2 b) (chosen player2_move (v2 b))"
    and "in_grid (board b) (p1 b)" and "in_grid (board b) (p2 b)"
  shows "\<exists>p1_dead p2_dead b'.
           move_players b (vadd (p1 b) (chosen player1_move (v1 b)))
                          (vadd (p2 b) (chosen player2_move (v2 b)))
             = (Inr (p1_dead, p2_dead), b')
         \<and> p1_dead = (\<not> valid_move (trail_marked b) (vadd (p1 b) (chosen player1_move (v1 b))))
         \<and> p2_dead = (\<not> valid_move (trail_marked b) (vadd (p2 b) (chosen player2_move (v2 b))))
         \<and> gameover (snd (update b player1_move player2_move)) = (p1_dead \<or> p2_dead)
         \<and> (p1_dead \<and> p2_dead \<longrightarrow> winner (snd (update b player1_move player2_move)) = None)
         \<and> (p1_dead \<and> \<not> p2_dead \<longrightarrow> winner (snd (update b player1_move player2_move)) = Some 2)
         \<and> (\<not> p1_dead \<and> p2_dead \<longrightarrow> winner (snd (update b player1_move player2_move)) = Some 1)
         \<and> (\<not> p1_dead \<and> \<not> p2_dead \<longrightarrow>
               winner (snd (update b player1_move player2_move)) = winner b)
         \<and> p1 (snd (update b player1_move player2_move))
             = (if p1_dead then p1 b else vadd (p1 b) (chosen player1_move (v1 b)))
         \<and> p2 (snd (update b player1_move player2_move))
             = (if p2_dead then p2 b else vadd (p2 b) (chosen player2_move (v2 b)))
         \<and> fst (update b player1_move player2_move)
             = Inr (\<not> gameover (snd (update b player1_move player2_move)))
         \<and> fst (update b player1_move player2_move) = Inr (\<not> p1_dead \<and> \<not> p2_dead)"
proof -
  let ?n1 = "vadd (p1 b) (chosen player1_move (v1 b))"
  let ?n2 = "vadd (p2 b) (chosen player2_move (v2 b))"
  define p1_dead where "p1_dead = (\<not> valid_move (trail_marked b) ?n1)"
  define p2_dead where "p2_dead = (\<not> valid_move (trail_marked b) ?n2)"
  define b3 where "b3 = (if p1_dead then trail_marked b
       else (trail_marked b)\<lparr>board := store (board (trail_marked b)) ?n1 PLAYER1_POSITION,
                              p1 := ?n1\<rparr>)"
  define b' where "b' = (if p2_dead then b3
       else b3\<lparr>board := store (board b3) ?n2 PLAYER2_POSITION, p2 := ?n2\<rparr>)"
  have mp: "move_players b ?n1 ?n2 = (Inr (p1_dead, p2_dead), b')"
    using assms(4)
    by (simp add: move_players_eq move_players_simultaneous_in_grid [OF assms(5,6)] Let_def
        trail_marked_def p1_dead_def p2_dead_def b3_def b'_def)
  have frame: "gameover b' = gameover b" "winner b' = winner b"
    "p1 b' = (if p1_dead then p1 b else ?n1)" "p2 b' = (if p2_dead then p2 b else ?n2)"
    by (simp_all add: b'_def b3_def trail_marked_def)
  have up: "update b player1_move player2_move
            = (Inr (\<not> gameover (check_dead b' p1_dead p2_dead)), check_dead b' p1_dead p2_dead)"
    using assms(2,3,4) mp by (simp add: update_def Let_def)
  have "gameover (check_dead b' p1_dead p2_dead) = (p1_dead \<or> p2_dead)"
    using assms(1) by (simp add: check_dead_def frame)
  moreover have "p1_dead \<and> p2_dead \<longrightarrow> winner (check_dead b' p1_dead p2_dead) = None"
    "p1_dead \<and> \<not> p2_dead \<longrightarrow> winner (check_dead b' p1_dead p2_dead) = Some 2"
    "\<not> p1_dead \<and> p2_dead \<longrightarrow> winner (check_dead b' p1_dead p2_dead) = Some 1"
    "\<not> p1_dead \<and> \<not> p2_dead \<longrightarrow> winner (check_dead b' p1_dead p2_dead) = winner b"
    by (simp_all add: check_dead_def frame)
  moreover have "p1 (check_dead b' p1_dead p2_dead) = (if p1_dead then p1 b else ?n1)"
    "p2 (check_dead b' p1_dead p2_dead) = (if p2_dead then p2 b else ?n2)"
    by (simp_all add: check_dead_frame frame)
  ultimately show ?thesis
    unfolding up fst_conv snd_conv
    by (intro exI [of _ p1_dead] exI [of _ p2_dead] exI [of _ b'])
       (simp add: mp p1_dead_def p2_dead_def)
qed

text \<open>
  Two runs of it. On the 3 x 3 corner board player 1 steps off the grid and player 2
  onto a free cell: player 2 wins. On the 5 x 5 scenario board both players move by
  (0, 1) onto free cells: nobody dies and the update returns \<open>True\<close>.
\<close>

theorem update_outcome_witness:
  "\<not> gameover corner_board
   \<and> contains VALID_VECTORS (chosen (Some (0, -1)) (v1 corner_board))
   \<and> contains VALID_VECTORS (chosen None (v2 corner_board))
   \<and> vadd (p1 corner_board) (chosen (Some (0, -1)) (v1 corner_board))
       \<noteq> vadd (p2 corner_board) (chosen None (v2 corner_board))
   \<and> in_grid (board corner_board) (p1 corner_board)
   \<and> in_grid (board corner_board) (p2 corner_board)
   \<and> \<not> valid_move (trail_marked corner_board) (0, -1)
   \<and> valid_move (trail_marked corner_board) (1, 2)
   \<and> fst (move_players corner_board (0, -1) (1, 2)) = Inr (True, False)
   \<and> gameover (snd (update corner_board (Some (0, -1)) None))
   \<and> winner (snd (update corner_board (Some (0, -1)) None)) = Some 2
   \<and> p1 (snd (update corner_board (Some (0, -1)) None)) = (0, 0)
   \<and> p2 (snd (update corner_board (Some (0, -1)) None)) = (1, 2)
   \<and> fst (update corner_board (Some (0, -1)) None) = Inr False
   \<and> \<not> gameover facing_board
   \<and> valid_move (trail_marked facing_board) (1, 3)
   \<and> valid_move (trail_marked facing_board) (3, 3)
   \<and> fst (move_players facing_board (1, 3) (3, 3)) = Inr (False, False)
   \<and> \<not> gameover (snd (update facing_board (Some (0, 1)) (Some (0, 1))))
   \<and> p1 (snd (update facing_board (Some (0, 1)) (Some (0, 1)))) = (1, 3)
   \<and> p2 (snd (update facing_board (Some (0, 1)) (Some (0, 1)))) = (3, 3)
   \<and> fst (update facing_board (Some (0, 1)) (Some (0, 1))) = Inr True"
proof -
  have h1: "\<not> gameover corner_board"
    and h2: "contains VALID_VECTORS (chosen (Some (0, -1)) (v1 corner_board))"
    and h3: "contains VALID_VECTORS (chosen None (v2 corner_board))"
    and h4: "vadd (p1 corner_board) (chosen (Some (0, -1)) (v1 corner_board))
       \<noteq> vadd (p2 corner_board) (chosen None (v2 corner_board))"
    and h5: "in_grid (board corner_board) (p1 corner_board)"
    and h6: "in_grid (board corner_board) (p2 corner_board)"
    by (simp_all add: corner_board_def board_defs chosen_def contains_def VALID_VECTORS_def
        vadd_def in_grid_def)
  have n: "vadd (p1 corner_board) (chosen (Some (0, -1)) (v1 corner_board)) = (0, -1)"
    "vadd (p2 corner_board) (chosen None (v2 corner_board)) = (1, 2)"
    by (simp_all add: corner_board_def board_defs chosen_def vadd_def)
  have ps: "p1 corner_board = (0, 0)" "p2 corner_board = (2, 2)"
    by (simp_all add: corner_board_def board_defs)
  have v: "\<not> valid_move (trail_marked corner_board) (0, -1)"
    "valid_move (trail_marked corner_board) (1, 2)"
    by (simp_all add: trail_marked_def store_def valid_move_def corner_board_def board_defs)
  have k1: "\<not> gameover facing_board"
    and k2: "contains VALID_VECTORS (chosen (Some (0, 1)) (v1 facing_board))"
    and k3: "contains VALID_VECTORS (chosen (Some (0, 1)) (v2 facing_board))"
    and k4: "vadd (p1 facing_board) (chosen (Some (0, 1)) (v1 facing_board))
       \<noteq> vadd (p2 facing_board) (chosen (Some (0, 1)) (v2 facing_board))"
    and k5: "in_grid (board facing_board) (p1 facing_board)"
    and k6: "in_grid (board facing_board) (p2 facing_board)"
    by (simp_all add: facing_board_def board_defs chosen_def contains_def VALID_VECTORS_def
        vadd_def in_grid_def)
  have m: "vadd (p1 facing_board) (chosen (Some (0, 1)) (v1 facing_board)) = (1, 3)"
    "vadd (p2 facing_board) (chosen (Some (0, 1)) (v2 facing_board)) = (3, 3)"
    by (simp_all add: facing_board_def board_defs chosen_def vadd_def)
  have w: "valid_move (trail_marked facing_board) (1, 3)"
    "valid_move (trail_marked facing_board) (3, 3)"
    by (simp_all add: trail_marked_def store_def valid_move_def facing_board_def board_defs)
  have corner: "fst (move_players corner_board (0, -1) (1, 2)) = Inr (True, False)
   \<and> gameover (snd (update corner_board (Some (0, -1)) None))
   \<and> winner (snd (update corner_board (Some (0, -1)) None)) = Some 2
   \<and> p1 (snd (update corner_board (Some (0, -1)) None)) = (0, 0)
   \<and> p2 (snd (update corner_board (Some (0, -1)) None)) = (1, 2)
   \<and> fst (update corner_board (Some (0, -1)) None) = Inr False"
    using update_outcome [OF h1 h2 h3 h4 h5 h6, unfolded n] v by (auto simp add: ps)
  have facing: "fst (move_players facing_board (1, 3) (3, 3)) = Inr (False, False)
   \<and> \<not> gameover (snd (update facing_board (Some (0, 1)) (Some (0, 1))))
   \<and> p1 (snd (update facing_board (Some (0, 1)) (Some (0, 1)))) = (1, 3)
   \<and> p2 (snd (update facing_board (Some (0, 1)) (Some (0, 1)))) = (3, 3)
   \<and> fst (update facing_board (Some (0, 1)) (Some (0, 1))) = Inr True"
    using update_outcome [OF k1 k2 k3 k4 k5 k6, unfolded m] w by auto
  show ?thesis
    using h1 h2 h3 h4 h5 h6 v k1 w corner facing by simp
qed

subsection \<open>Swapping places\<close>

text \<open>
  C10. When each player heads for the cell the other one stands on, the new positions
  differ, so this is not the head-on branch: both old cells are marked as trail, both
  moves are rejected, nobody moves, and the game is over without a winner.
\<close>

theorem swap_is_double_death:
  assumes "contains VALID_VECTORS (chosen player1_move (v1 b))"
    and "contains VALID_VECTORS (chosen player2_move (v2 b))"
    and "vadd (p1 b) (chosen player1_move (v1 b)) = p2 b"
    and "vadd (p2 b) (chosen player2_move (v2 b)) = p1 b"
    and "p1 b \<noteq> p2 b"
    and "in_grid (board b) (p1 b)" and "in_grid (board b) (p2 b)"
  shows "update b player1_move player2_move
           = (Inr False,
              b\<lparr>board := store (store (board b) (p1 b) VISITED1) (p2 b) VISITED2,
                gameover := True, winner := None\<rparr>)
         \<and> fst (move_players b (p2 b) (p1 b)) = Inr (True, True)
         \<and> cell_at (board (snd (update b player1_move player2_move))) (p1 b) = VISITED1
         \<and> cell_at (board (snd (update b player1_move player2_move))) (p2 b) = VISITED2
         \<and> p1 (snd (update b player1_move player2_move)) = p1 b
         \<and> p2 (snd (update b player1_move player2_move)) = p2 b"
proof -
  let ?step6 = "b\<lparr>board := store (store (board b) (p1 b) VISITED1) (p2 b) VISITED2\<rparr>"
  have c1: "cell_at (board ?step6) (p1 b) = VISITED1"
    and c2: "cell_at (board ?step6) (p2 b) = VISITED2"
    using assms(5,6,7) by (simp_all add: cell_at_store_in_grid)
  then have dead: "\<not> valid_move ?step6 (p2 b)" "\<not> valid_move ?step6 (p1 b)"
    by (simp_all add: valid_move_eq)
  have mp: "move_players b (p2 b) (p1 b) = (Inr (True, True), ?step6)"
    using assms(5) dead
    by (simp add: move_players_eq [of "p2 b" "p1 b"] 
        move_players_simultaneous_in_grid [OF assms(6,7)] Let_def)
  have up: "update b player1_move player2_move
           = (Inr False, ?step6\<lparr>gameover := True, winner := None\<rparr>)"
    using assms(1-5) mp by (simp add: update_def Let_def check_dead_def)
  show ?thesis using c1 c2 mp by (simp add: up)
qed

theorem swap_is_double_death_witness:
  "contains VALID_VECTORS (chosen None (v1 adjacent_board))
   \<and> contains VALID_VECTORS (chosen None (v2 adjacent_board))
   \<and> vadd (p1 adjacent_board) (chosen None (v1 adjacent_board)) = p2 adjacent_board
   \<and> vadd (p2 adjacent_board) (chosen None (v2 adjacent_board)) = p1 adjacent_board
   \<and> p1 adjacent_board \<noteq> p2 adjacent_board
   \<and> in_grid (board adjacent_board) (p1 adjacent_board)
   \<and> in_grid (board adjacent_board) (p2 adjacent_board)
   \<and> fst (update adjacent_board None None) = Inr False
   \<and> gameover (snd (update adjacent_board None None))
   \<and> winner (snd (update adjacent_board None None)) = None
   \<and> p1 (snd (update adjacent_board None None)) = (1, 2)
   \<and> p2 (snd (update adjacent_board None None)) = (2, 2)
   \<and> cell_at (board (snd (update adjacent_board None None))) (1, 2) = VISITED1
   \<and> cell_at (board (snd (update adjacent_board None None))) (2, 2) = VISITED2"
proof -
  have h1: "contains VALID_VECTORS (chosen None (v1 adjacent_board))"
    and h2: "contains VALID_VECTORS (chosen None (v2 adjacent_board))"
    and h3: "vadd (p1 adjacent_board) (chosen None (v1 adjacent_board)) = p2 adjacent_board"
    and h4: "vadd (p2 adjacent_board) (chosen None (v2 adjacent_board)) = p1 adjacent_board"
    and h5: "p1 adjacent_board \<noteq> p2 adjacent_board"
    and h6: "in_grid (board adjacent_board) (p1 adjacent_board)"
    and h7: "in_grid (board adjacent_board) (p2 adjacent_board)"
    by (simp_all add: adjacent_board_def board_defs chosen_def contains_def VALID_VECTORS_def
        vadd_def in_grid_def)
  have ps: "p1 adjacent_board = (1, 2)" "p2 adjacent_board = (2, 2)"
    by (simp_all add: adjacent_board_def board_defs)
  show ?thesis
    using swap_is_double_death [OF h1 h2 h3 h4 h5 h6 h7] h1 h2 h3 h4 h5 h6 h7
    by (simp add: ps cell_at_store)
qed

subsection \<open>Invariants of the grid\<close>

lemma int_image_upt: "0 \<le> i \<Longrightarrow> i < int n \<Longrightarrow> i \<in> int ` {0..<n}"
  by (rule image_eqI [where x = "nat i"]) simp_all

lemma set_coordinates: "set (coordinates a) = {pos. in_grid a pos}"
  by (auto simp add: coordinates_def in_grid_def int_image_upt)

lemma distinct_coordinates: "distinct (coordinates a)"
  by (simp add: coordinates_def distinct_product distinct_map)

lemma filter_single:
  "distinct xs \<Longrightarrow> x \<in> set xs \<Longrightarrow> (\<And>y. y \<in> set xs \<Longrightarrow> P y \<longleftrightarrow> y = x) \<Longrightarrow> filter P xs = [x]"
proof (induction xs)
  case Nil
  then show ?case by simp
next
  case (Cons a xs)
  show ?case
  proof (cases "a = x")
    case True
    with Cons.prems have "x \<notin> set xs" by simp
    with Cons.prems(3) have "\<And>y. y \<in> set xs \<Longrightarrow> \<not> P y" by auto
    then have "filter P xs = []" by (simp add: filter_empty_conv)
    moreover from True Cons.prems(3) have "P a" by simp
    ultimately show ?thesis using True by simp
  next
    case False
    with Cons.prems have "x \<in> set xs" "distinct xs" "\<not> P a" by auto
    with Cons show ?thesis by simp
  qed
qed

lemma players_marked_cells:
  assumes "players_marked b"
  shows "cells_holding PLAYER1_POSITION (board b) = [p1 b]"
    and "cells_holding PLAYER2_POSITION (board b) = [p2 b]"
  unfolding cells_holding_def
  using assms
  by (intro filter_single;
      simp add: distinct_coordinates set_coordinates players_marked_def del: split_paired_All)+

lemma init_players_marked:
  assumes "TronBoard_init n m pos1 pos2 vec1 vec2 = Inr b" "in_bounds n m pos1" "in_bounds n m pos2"
  shows "players_marked b" and "\<not> gameover b"
proof -
  from assms(2,3) have nn: "0 \<le> fst pos1" "0 \<le> snd pos1" "0 \<le> fst pos2" "0 \<le> snd pos2"
    by (simp_all add: in_bounds_def)
  from assms have ne: "pos1 \<noteq> pos2" and b: "b = \<lparr>board = store (store \<lparr>shape0 = nat n, shape1 = nat m, item = (\<lambda>i j. EMPTY)\<rparr>
                                   pos1 PLAYER1_POSITION) pos2 PLAYER2_POSITION,
                gameover = False, winner = None,
                p1 = pos1, p2 = pos2, v1 = vec1, v2 = vec2\<rparr>"
    by (auto simp add: TronBoard_init_nonneg [OF nn] split: if_splits)
  show "\<not> gameover b" by (simp add: b)
  have g: "in_grid (board b) pos1" "in_grid (board b) pos2"
    using assms(2,3) by (simp_all add: b in_grid_def in_bounds_def)
  have "(cell_at (board b) pos = PLAYER1_POSITION \<longleftrightarrow> pos = pos1)
      \<and> (cell_at (board b) pos = PLAYER2_POSITION \<longleftrightarrow> pos = pos2)"
    if "in_grid (board b) pos" for pos
    using that nn ne by (simp add: b cell_at_store in_grid_def) (simp add: cell_at_def)
  with g show "players_marked b" by (simp add: players_marked_def b del: split_paired_All)
qed

lemma update_keeps_marked:
  assumes "gameover b \<or> players_marked b"
  shows "gameover (snd (update b m1 m2)) \<or> players_marked (snd (update b m1 m2))"
proof (cases "gameover b")
  case True
  then show ?thesis by (simp add: update_gameover_mono)
next
  case False
  with assms have pm: "players_marked b" by simp
  then have g: "in_grid (board b) (p1 b)" "in_grid (board b) (p2 b)"
    by (simp_all add: players_marked_def)
  let ?n1 = "vadd (p1 b) (chosen m1 (v1 b))" and ?n2 = "vadd (p2 b) (chosen m2 (v2 b))"
  let ?a2 = "store (store (board b) (p1 b) VISITED1) (p2 b) VISITED2"
  let ?step6 = "b\<lparr>board := ?a2\<rparr>"
  show ?thesis
  proof (cases "contains VALID_VECTORS (chosen m1 (v1 b)) \<and> contains VALID_VECTORS (chosen m2 (v2 b))")
    case False
    then have "update b m1 m2 = (Inl ValueError, b)"
      by (auto simp add: update_def Let_def)
    with pm show ?thesis by simp
  next
    case ok: True
    show ?thesis
    proof (cases "?n1 = ?n2")
      case True
      with ok show ?thesis by (simp add: update_def Let_def)
    next
      case ne: False
      show ?thesis
      proof (cases "valid_move ?step6 ?n1 \<and> valid_move ?step6 ?n2")
        case False
        with ok ne show ?thesis
          by (auto simp add: update_eq update_simultaneous_def
              move_players_simultaneous_in_grid [OF g] Let_def check_dead_def)
      next
        case True
        let ?b' = "?step6\<lparr>board := store (store ?a2 ?n1 PLAYER1_POSITION) ?n2 PLAYER2_POSITION,
                          p1 := ?n1, p2 := ?n2\<rparr>"
        from True ok ne have up: "snd (update b m1 m2) = ?b'"
          by (simp add: update_eq update_simultaneous_def
              move_players_simultaneous_in_grid [OF g] Let_def check_dead_def)
        from True have v: "in_grid (board b) ?n1" "in_grid (board b) ?n2"
          "cell_at ?a2 ?n1 = EMPTY" "cell_at ?a2 ?n2 = EMPTY"
          by (simp_all add: valid_move_eq)
        from v g have away: "?n1 \<noteq> p1 b" "?n1 \<noteq> p2 b" "?n2 \<noteq> p1 b" "?n2 \<noteq> p2 b"
          by (auto simp add: cell_at_store_in_grid split: if_splits)
        have "(cell_at (board ?b') pos = PLAYER1_POSITION \<longleftrightarrow> pos = ?n1)
            \<and> (cell_at (board ?b') pos = PLAYER2_POSITION \<longleftrightarrow> pos = ?n2)"
          if "in_grid (board b) pos" for pos
          using that pm g v(1,2) ne away
          by (simp add: cell_at_store_in_grid players_marked_def del: split_paired_All)
        with v(1,2) have "players_marked ?b'"
          by (simp add: players_marked_def del: split_paired_All)
        with up show ?thesis by simp
      qed
    qed
  qed
qed

lemma run_grows: "run b b' \<Longrightarrow> grows (board b) (board b')"
proof (induction rule: run.induct)
  case (run_refl b)
  show ?case by (rule grows_refl)
next
  case (run_step b b' player1_move player2_move)
  then show ?case using update_grows grows_trans by blast
qed

lemma run_keeps_marked:
  "run b b' \<Longrightarrow> gameover b \<or> players_marked b \<Longrightarrow> gameover b' \<or> players_marked b'"
  by (induction rule: run.induct) (simp_all add: update_keeps_marked)

lemma grows_cell:
  assumes "grows a a'"
  shows "in_grid a' pos = in_grid a pos" and "cell_at a pos \<noteq> EMPTY \<Longrightarrow> cell_at a' pos \<noteq> EMPTY"
  using assms by (simp_all add: grows_def in_grid_def cell_at_def)

text \<open>
  C9. Take a board built by the constructor from two positions inside the grid, any
  board \<open>b\<close> that a sequence of updates leads to from it, and any board \<open>b'\<close> that a
  further sequence of updates leads to from \<open>b\<close>. Every cell of \<open>b\<close> that is not
  \<open>EMPTY\<close> is still a cell and still not \<open>EMPTY\<close> in \<open>b'\<close>; and while \<open>b\<close> is not
  over, exactly one cell holds \<open>PLAYER1_POSITION\<close> and exactly one holds
  \<open>PLAYER2_POSITION\<close>, the cells on which the two players stand.
\<close>

theorem cells_stay_and_one_cell_each:
  assumes "TronBoard_init n m pos1 pos2 vec1 vec2 = Inr b0"
    and "in_bounds n m pos1" and "in_bounds n m pos2"
    and "run b0 b" and "run b b'"
  shows "(\<forall>pos. in_grid (board b) pos \<and> cell_at (board b) pos \<noteq> EMPTY \<longrightarrow>
             in_grid (board b') pos \<and> cell_at (board b') pos \<noteq> EMPTY)
       \<and> (\<not> gameover b \<longrightarrow>
             cells_holding PLAYER1_POSITION (board b) = [p1 b]
           \<and> cells_holding PLAYER2_POSITION (board b) = [p2 b]
           \<and> length (cells_holding PLAYER1_POSITION (board b)) = 1
           \<and> length (cells_holding PLAYER2_POSITION (board b)) = 1)"
proof -
  from assms(5) have "grows (board b) (board b')" by (rule run_grows)
  then have stay: "\<forall>pos. in_grid (board b) pos \<and> cell_at (board b) pos \<noteq> EMPTY \<longrightarrow>
             in_grid (board b') pos \<and> cell_at (board b') pos \<noteq> EMPTY"
    by (simp add: grows_cell)
  from assms(1-3) have "players_marked b0" by (rule init_players_marked)
  with assms(4) have "gameover b \<or> players_marked b"
    using run_keeps_marked by blast
  then have "cells_holding PLAYER1_POSITION (board b) = [p1 b]
           \<and> cells_holding PLAYER2_POSITION (board b) = [p2 b]" if "\<not> gameover b"
    using that players_marked_cells by blast
  with stay show ?thesis by simp
qed


theorem cells_stay_and_one_cell_each_witness:
  "TronBoard_init 5 5 (1, 2) (3, 2) (1, 0) (-1, 0) = Inr facing_board
   \<and> in_bounds 5 5 (1, 2) \<and> in_bounds 5 5 (3, 2)
   \<and> run facing_board moved_board
   \<and> run moved_board (snd (update moved_board (Some (0, 1)) (Some (0, 1))))
   \<and> in_grid (board moved_board) (1, 2) \<and> cell_at (board moved_board) (1, 2) \<noteq> EMPTY
   \<and> cell_at (board (snd (update moved_board (Some (0, 1)) (Some (0, 1))))) (1, 2) \<noteq> EMPTY
   \<and> \<not> gameover moved_board
   \<and> cells_holding PLAYER1_POSITION (board moved_board) = [(1, 3)]
   \<and> cells_holding PLAYER2_POSITION (board moved_board) = [(3, 3)]"
proof -
  have ib: "in_bounds 5 5 (1, 2)" "in_bounds 5 5 (3, 2)"
    by (simp_all add: in_bounds_def)
  have r1: "run facing_board moved_board"
    unfolding moved_board_def by (rule run_step [OF run_refl])
  have r2: "run moved_board (snd (update moved_board (Some (0, 1)) (Some (0, 1))))"
    by (rule run_step [OF run_refl])
  have facts: "in_grid (board moved_board) (1, 2)" "cell_at (board moved_board) (1, 2) \<noteq> EMPTY"
    "\<not> gameover moved_board" "p1 moved_board = (1, 3)" "p2 moved_board = (3, 3)"
    by (simp_all add: moved_board_def facing_board_def board_defs update_defs in_grid_def
        cell_at_def)
  note t = cells_stay_and_one_cell_each [OF facing_board_init ib r1 r2]
  from t facts(1,2)
  have "cell_at (board (snd (update moved_board (Some (0, 1)) (Some (0, 1))))) (1, 2) \<noteq> EMPTY"
    by blast
  moreover from t facts(3)
  have "cells_holding PLAYER1_POSITION (board moved_board) = [p1 moved_board]"
    "cells_holding PLAYER2_POSITION (board moved_board) = [p2 moved_board]"
    by blast+
  ultimately show ?thesis
    using facing_board_init ib r1 r2 facts by simp
qed

end
